theory Spec2Isabelle
  imports Main
begin

section \<open>The storefront frontend: examples/online_boutique/frontend/frontend.go\<close>

text \<open>
  The development embeds \<^verbatim>\<open>NewServer\<close> and \<^verbatim>\<open>setPlatformDetails\<close> of
  \<^verbatim>\<open>frontend.go\<close>. Everything the constructor reads from outside (the component
  registry behind \<^verbatim>\<open>weaver.Get\<close>, the process environment, the name resolver, the
  kernel's hostname, the embedded asset collection) is an explicit input; everything it
  does besides returning (component resolutions, the notice on standard output, the
  debug log) is appended to a trace of events, passed through the calls in program order.
\<close>

subsection \<open>Errors, services, platform details\<close>

datatype error = Error string | ErrNotExist | ErrInvalid

text \<open>The seven component types asked of \<^verbatim>\<open>weaver.Get\<close>, in the order of lines 87 to 111.\<close>

datatype service = Catalog | Currency | Cart | Recommendation | Checkout | Shipping | Ad

datatype handle = Handle nat

record platformDetails =
  css :: string
  provider :: string

text \<open>
  Lines 58 to 66. The method writes both fields of its receiver; the model returns the
  receiver updated.
\<close>

definition setPlatformDetails :: "platformDetails \<Rightarrow> string \<Rightarrow> platformDetails" where
  "setPlatformDetails plat env =
     (if env = ''gcp''
      then plat\<lparr>provider := ''Google Cloud'', css := ''gcp-platform''\<rparr>
      else plat\<lparr>provider := ''local'', css := ''local''\<rparr>)"

text \<open>Line 50.\<close>

definition validEnvs :: "string list" where
  "validEnvs = [''local'', ''gcp'']"

text \<open>
  Modelled from the spec: \<^verbatim>\<open>stringinSlice\<close> is a helper of the frontend package that
  is defined outside \<^verbatim>\<open>frontend.go\<close>. The specification (section 4.2, step 1) reads
  the test \<^verbatim>\<open>!stringinSlice(validEnvs, env)\<close> as "not a member of the recognized set",
  so the helper is membership of the value in the slice.
\<close>

definition stringinSlice :: "string list \<Rightarrow> string \<Rightarrow> bool" where
  "stringinSlice slice val = (val \<in> set slice)"

text \<open>
  \<^verbatim>\<open>strings.ToLower\<close> on bytes: the letters A to Z are mapped to a to z and every
  other byte is kept. This is the library function on ASCII strings, which is all that
  reaches it on line 133 (the label is \<^verbatim>\<open>local\<close> or \<^verbatim>\<open>gcp\<close> there).
\<close>

definition toLowerByte :: "char \<Rightarrow> char" where
  "toLowerByte c =
     (if 65 \<le> (of_char c :: nat) \<and> (of_char c :: nat) \<le> 90
      then char_of ((of_char c :: nat) + 32) else c)"

definition ToLower :: "string \<Rightarrow> string" where
  "ToLower s = map toLowerByte s"

subsection \<open>The outside world and the trace of effects\<close>

text \<open>
  \<^verbatim>\<open>weaver.Instance\<close>: the registry that \<^verbatim>\<open>weaver.Get\<close> asks for a component.
\<close>

record Instance =
  components :: "service \<Rightarrow> error + handle"

record world =
  environ :: "string \<rightharpoonup> string"
  resolver :: "string \<Rightarrow> error + string list"
  kernelHostname :: "error + string"
  staticFS :: "(string \<times> string) list"

datatype event =
    Get service
  | Println string
  | Debug string "(string \<times> string list) list"

text \<open>
  Modelled from the spec: \<^verbatim>\<open>weaver.Get\<close> belongs to the weaver package, outside
  \<^verbatim>\<open>frontend.go\<close>. Section 4.1 gives its contract: the registry yields a handle or an
  error, with no fallback. The attempt is recorded in the trace.
\<close>

definition weaverGet :: "Instance \<Rightarrow> service \<Rightarrow> event list \<Rightarrow> (error + handle) \<times> event list" where
  "weaverGet root svc tr = (components root svc, tr @ [Get svc])"

text \<open>\<^verbatim>\<open>os.Getenv\<close>: the value of the variable, empty when it is not set.\<close>

definition Getenv :: "world \<Rightarrow> string \<Rightarrow> string" where
  "Getenv w key = (case environ w key of None \<Rightarrow> [] | Some v \<Rightarrow> v)"

subsection \<open>Environment detection, lines 119 to 131\<close>

text \<open>
  Lines 119 to 124: the label from \<^verbatim>\<open>ENV_PLATFORM\<close>, replaced by \<^verbatim>\<open>local\<close> with a
  notice on standard output when it is empty or not in \<^verbatim>\<open>validEnvs\<close>.
\<close>

definition envPlatform :: "world \<Rightarrow> event list \<Rightarrow> string \<times> event list" where
  "envPlatform w tr =
     (let env = Getenv w ''ENV_PLATFORM'' in
      if env = [] \<or> \<not> stringinSlice validEnvs env
      then (''local'', tr @ [Println ''env platform is either empty or invalid''])
      else (env, tr))"

text \<open>
  Lines 126 to 130: the probe of the metadata host. The test is
  \<^verbatim>\<open>err == nil && len(addrs) >= 0\<close>, with the length as a Go \<^verbatim>\<open>int\<close>.
\<close>

definition autodetectGCP :: "world \<Rightarrow> string \<Rightarrow> event list \<Rightarrow> string \<times> event list" where
  "autodetectGCP w env tr =
     (case resolver w ''metadata.google.internal.'' of
        Inr addrs \<Rightarrow>
          if 0 \<le> int (length addrs)
          then (''gcp'',
                tr @ [Debug ''Detected Google metadata server, setting ENV_PLATFORM to GCP.''
                        [(''address'', addrs)]])
          else (env, tr)
      | Inl err \<Rightarrow> (env, tr))"

text \<open>Lines 119 to 131: both steps and the debug line that reports the label.\<close>

definition detectEnv :: "world \<Rightarrow> event list \<Rightarrow> string \<times> event list" where
  "detectEnv w tr =
     (case envPlatform w tr of (env, tr1) \<Rightarrow>
      case autodetectGCP w env tr1 of (env', tr2) \<Rightarrow>
        (env', tr2 @ [Debug ''ENV_PLATFORM'' [(''platform'', [env'])]]))"

text \<open>Lines 134 to 138.\<close>

definition getHostname :: "world \<Rightarrow> event list \<Rightarrow> string \<times> event list" where
  \<open>getHostname w tr =
     (case kernelHostname w of
        Inl err \<Rightarrow>
          (''unknown'', tr @ [Debug ''cannot get hostname for frontend: using "unknown"'' []])
      | Inr hostname \<Rightarrow> (hostname, tr))\<close>

subsection \<open>Paths: \<^verbatim>\<open>strings\<close>, \<^verbatim>\<open>path\<close> and \<^verbatim>\<open>io/fs\<close>\<close>

definition HasPrefix :: "string \<Rightarrow> string \<Rightarrow> bool" where
  "HasPrefix s pre = (take (length pre) s = pre)"

definition HasSuffix :: "string \<Rightarrow> string \<Rightarrow> bool" where
  "HasSuffix s suf = (length suf \<le> length s \<and> drop (length s - length suf) s = suf)"

definition TrimPrefix :: "string \<Rightarrow> string \<Rightarrow> string" where
  "TrimPrefix s pre = (if HasPrefix s pre then drop (length pre) s else s)"

definition TrimSuffix :: "string \<Rightarrow> string \<Rightarrow> string" where
  "TrimSuffix s suf = (if HasSuffix s suf then take (length s - length suf) s else s)"

text \<open>The elements of a path between its slashes, and the path of a list of elements.\<close>

fun splitSlash :: "string \<Rightarrow> string list" where
  "splitSlash [] = [[]]"
| "splitSlash (c # cs) =
     (if c = CHR ''/'' then [] # splitSlash cs
      else (case splitSlash cs of [] \<Rightarrow> [[c]] | e # es \<Rightarrow> (c # e) # es))"

fun joinSlash :: "string list \<Rightarrow> string" where
  "joinSlash [] = []"
| "joinSlash [e] = e"
| "joinSlash (e # es) = e @ ''/'' @ joinSlash es"

text \<open>
  \<^verbatim>\<open>utf8.ValidString\<close>, on the bytes of the string: the well-formed byte sequences of
  UTF-8 (no overlong forms, no surrogates, nothing above U+10FFFF).
\<close>

definition cont :: "nat \<Rightarrow> bool" where
  "cont b = (128 \<le> b \<and> b \<le> 191)"

fun validBytes :: "nat list \<Rightarrow> bool" where
  "validBytes [] = True"
| "validBytes (b # bs) =
     (if b < 128 then validBytes bs
      else if 194 \<le> b \<and> b \<le> 223 then
        (case bs of c1 # r \<Rightarrow> cont c1 \<and> validBytes r | _ \<Rightarrow> False)
      else if b = 224 then
        (case bs of c1 # c2 # r \<Rightarrow> 160 \<le> c1 \<and> c1 \<le> 191 \<and> cont c2 \<and> validBytes r | _ \<Rightarrow> False)
      else if (225 \<le> b \<and> b \<le> 236) \<or> b = 238 \<or> b = 239 then
        (case bs of c1 # c2 # r \<Rightarrow> cont c1 \<and> cont c2 \<and> validBytes r | _ \<Rightarrow> False)
      else if b = 237 then
        (case bs of c1 # c2 # r \<Rightarrow> 128 \<le> c1 \<and> c1 \<le> 159 \<and> cont c2 \<and> validBytes r | _ \<Rightarrow> False)
      else if b = 240 then
        (case bs of c1 # c2 # c3 # r \<Rightarrow>
           144 \<le> c1 \<and> c1 \<le> 191 \<and> cont c2 \<and> cont c3 \<and> validBytes r | _ \<Rightarrow> False)
      else if 241 \<le> b \<and> b \<le> 243 then
        (case bs of c1 # c2 # c3 # r \<Rightarrow> cont c1 \<and> cont c2 \<and> cont c3 \<and> validBytes r | _ \<Rightarrow> False)
      else if b = 244 then
        (case bs of c1 # c2 # c3 # r \<Rightarrow>
           128 \<le> c1 \<and> c1 \<le> 143 \<and> cont c2 \<and> cont c3 \<and> validBytes r | _ \<Rightarrow> False)
      else False)"

definition ValidString :: "string \<Rightarrow> bool" where
  "ValidString s = validBytes (map of_char s)"

text \<open>
  \<^verbatim>\<open>fs.ValidPath\<close>: valid UTF-8 and either the single dot, or slash-separated elements
  none of which is empty, a dot or two dots.
\<close>

definition validElem :: "string \<Rightarrow> bool" where
  "validElem elem = (elem \<noteq> [] \<and> elem \<noteq> ''.'' \<and> elem \<noteq> ''..'')"

definition ValidPath :: "string \<Rightarrow> bool" where
  "ValidPath name =
     (ValidString name \<and> (name = ''.'' \<or> list_all validElem (splitSlash name)))"

text \<open>
  \<^verbatim>\<open>path.Clean\<close>, element by element: empty elements and dots are dropped, two dots
  remove the element before them, or are dropped at the root, or are kept in front of a
  relative path. The accumulator holds the kept elements, the last one first.
\<close>

fun cleanElems :: "bool \<Rightarrow> string list \<Rightarrow> string list \<Rightarrow> string list" where
  "cleanElems rooted out [] = rev out"
| "cleanElems rooted out (e # es) =
     (if e = [] \<or> e = ''.'' then cleanElems rooted out es
      else if e = ''..'' then
        (if out \<noteq> [] \<and> hd out \<noteq> ''..'' then cleanElems rooted (tl out) es
         else if \<not> rooted then cleanElems rooted (''..'' # out) es
         else cleanElems rooted out es)
      else cleanElems rooted (e # out) es)"

definition Clean :: "string \<Rightarrow> string" where
  "Clean p =
     (if p = [] then ''.''
      else
        let rooted = (hd p = CHR ''/'');
            out = (if rooted then ''/'' else []) @ joinSlash (cleanElems rooted [] (splitSlash p))
        in if out = [] then ''.'' else out)"

text \<open>\<^verbatim>\<open>path.Join\<close> of two elements.\<close>

definition Join :: "string \<Rightarrow> string \<Rightarrow> string" where
  "Join a b =
     (if a = [] \<and> b = [] then []
      else if a = [] then Clean b
      else Clean (a @ ''/'' @ b))"

text \<open>
  The two implementations of \<^verbatim>\<open>fs.FS\<close> that the constructor meets: the embedded
  collection (\<^verbatim>\<open>embed.FS\<close>: the regular files by name; a directory is a proper
  prefix of a file's name) and the subtree that \<^verbatim>\<open>fs.Sub\<close> returns.
\<close>

datatype FS = embedFS "(string \<times> string) list" | subFS FS string

datatype File = RegularFile string | Directory

definition embedIsDir :: "(string \<times> string) list \<Rightarrow> string \<Rightarrow> bool" where
  "embedIsDir files name = list_ex (\<lambda>f. HasPrefix (fst f) (name @ ''/'')) files"

fun Open :: "FS \<Rightarrow> string \<Rightarrow> error + File" where
  "Open (embedFS files) name =
     (if \<not> ValidPath name then Inl ErrNotExist
      else if name = ''.'' then Inr Directory
      else (case map_of files name of
              Some data \<Rightarrow> Inr (RegularFile data)
            | None \<Rightarrow> if embedIsDir files name then Inr Directory else Inl ErrNotExist))"
| "Open (subFS fsys dir) name =
     (if \<not> ValidPath name then Inl ErrInvalid else Open fsys (Join dir name))"

text \<open>\<^verbatim>\<open>fs.Sub\<close>.\<close>

definition Sub :: "FS \<Rightarrow> string \<Rightarrow> error + FS" where
  "Sub fsys dir =
     (if \<not> ValidPath dir then Inl ErrInvalid
      else if dir = ''.'' then Inr fsys
      else (case fsys of
              subFS inner d \<Rightarrow> Inr (subFS inner (Join d dir))
            | embedFS files \<Rightarrow> Inr (subFS fsys dir)))"

text \<open>
  \<^verbatim>\<open>http.FS\<close>: the adapter from \<^verbatim>\<open>fs.FS\<close> to \<^verbatim>\<open>http.FileSystem\<close>. The
  error of a failed open is passed on as it is; the adapter may exchange it for
  \<^verbatim>\<open>ErrNotExist\<close>, and the file server below answers every error with an error reply.
\<close>

datatype FileSystem = ioFS FS

fun httpOpen :: "FileSystem \<Rightarrow> string \<Rightarrow> error + File" where
  "httpOpen (ioFS fsys) name =
     Open fsys (if name = ''/'' then ''.'' else TrimPrefix name ''/'')"

subsection \<open>Handlers and routes\<close>

text \<open>
  The functions that the routes are bound to. The eight methods of the server are
  defined outside \<^verbatim>\<open>frontend.go\<close> and stay opaque; the two closures of lines 175 and
  178 print a fixed string to the response.
\<close>

datatype handlerFunc =
    homeHandler | productHandler | viewCartHandler | addToCartHandler
  | emptyCartHandler | setCurrencyHandler | logoutHandler | placeOrderHandler
  | Fprint string

datatype pathTemplate = Path string | PathPrefix string

text \<open>
  A handler is the expression that builds it. \<^verbatim>\<open>InstrumentHandler\<close> is
  \<^verbatim>\<open>weaver.InstrumentHandler\<close>, \<^verbatim>\<open>otelNewHandler\<close> is \<^verbatim>\<open>otelhttp.NewHandler\<close>,
  \<^verbatim>\<open>Router\<close> is the \<^verbatim>\<open>mux\<close> router with its routes in the order of registration.
  A route with no methods listed accepts every method.
\<close>

datatype handler =
    HandlerFunc handlerFunc
  | InstrumentHandler string handler
  | StripPrefix string handler
  | FileServer FileSystem
  | Router "route list"
  | ensureSessionID handler
  | newLogHandler Instance handler
  | otelNewHandler handler string
and route =
    Route (template: pathTemplate) (methods: "string list") (routeHandler: handler)

text \<open>
  What a handler answers to a plain \<^verbatim>\<open>GET\<close> request (no range, no conditions) for a
  URL path. Status and body are kept; the target of a redirect, the status of an error
  reply and the text of a directory listing are not.
\<close>

datatype response = OK string | MovedPermanently | NotFound | ErrorReply | DirList | Opaque

text \<open>
  \<^verbatim>\<open>serveFile\<close> of \<^verbatim>\<open>net/http\<close>, called with \<^verbatim>\<open>redirect\<close> set: \<^verbatim>\<open>url\<close> is the
  request's path and \<^verbatim>\<open>name\<close> the cleaned path that is opened.
\<close>

definition serveFile :: "FileSystem \<Rightarrow> string \<Rightarrow> string \<Rightarrow> response" where
  "serveFile fsys url name =
     (if HasSuffix url ''/index.html'' then MovedPermanently
      else (case httpOpen fsys name of
              Inl err \<Rightarrow> ErrorReply
            | Inr Directory \<Rightarrow>
                if url = [] \<or> last url \<noteq> CHR ''/'' then MovedPermanently
                else (case httpOpen fsys (TrimSuffix name ''/'' @ ''/index.html'') of
                        Inr (RegularFile data) \<Rightarrow> OK data
                      | _ \<Rightarrow> DirList)
            | Inr (RegularFile data) \<Rightarrow>
                if url \<noteq> [] \<and> last url = CHR ''/'' then MovedPermanently else OK data))"

text \<open>The method \<^verbatim>\<open>ServeHTTP\<close> of the handler that \<^verbatim>\<open>http.FileServer\<close> returns.\<close>

definition fileHandler :: "FileSystem \<Rightarrow> string \<Rightarrow> response" where
  "fileHandler fsys p =
     (let upath = (if \<not> HasPrefix p ''/'' then ''/'' @ p else p)
      in serveFile fsys upath (Clean upath))"

text \<open>
  \<^verbatim>\<open>ServeHTTP\<close>. The file server and \<^verbatim>\<open>http.StripPrefix\<close> follow \<^verbatim>\<open>net/http\<close>,
  for a request whose URL carries no separate encoded path.
  Modelled from the spec: \<^verbatim>\<open>weaver.InstrumentHandler\<close> is defined in the weaver package,
  outside \<^verbatim>\<open>frontend.go\<close>; by sections 3 and 4.5 it attributes the request to its label
  and lets the wrapped handler answer. The server's own methods, the router's dispatch and
  the three wrappers of lines 184 to 186 are defined elsewhere and answer \<^verbatim>\<open>Opaque\<close>.
\<close>

fun ServeHTTP :: "handler \<Rightarrow> string \<Rightarrow> response" where
  "ServeHTTP (HandlerFunc (Fprint body)) p = OK body"
| "ServeHTTP (HandlerFunc fn) p = Opaque"
| "ServeHTTP (InstrumentHandler label h) p = ServeHTTP h p"
| "ServeHTTP (StripPrefix pre h) p =
     (if pre = [] then ServeHTTP h p
      else if length (TrimPrefix p pre) < length p then ServeHTTP h (TrimPrefix p pre)
      else NotFound)"
| "ServeHTTP (FileServer fsys) p = fileHandler fsys p"
| "ServeHTTP (Router rs) p = Opaque"
| "ServeHTTP (ensureSessionID h) p = Opaque"
| "ServeHTTP (newLogHandler root h) p = Opaque"
| "ServeHTTP (otelNewHandler h name) p = Opaque"

text \<open>The label under which the instrumentation layer counts a handler, if it does.\<close>

fun instrumentLabel :: "handler \<Rightarrow> string option" where
  "instrumentLabel (InstrumentHandler label h) = Some label"
| "instrumentLabel h = None"

subsection \<open>The server and its constructor\<close>

record Server =
  handler :: "handler option"
  root :: Instance
  platform :: platformDetails
  hostname :: string
  catalogService :: handle
  currencyService :: handle
  cartService :: handle
  recommendationService :: handle
  checkoutService :: handle
  shippingService :: handle
  adService :: handle

text \<open>
  Lines 162 to 164, with the call of \<^verbatim>\<open>Methods\<close> that follows it on lines 166 to 173:
  the route is appended to the router.
\<close>

definition handleInstrumented ::
  "route list \<Rightarrow> string \<Rightarrow> string \<Rightarrow> handlerFunc \<Rightarrow> string list \<Rightarrow> route list" where
  "handleInstrumented r path label fn ms =
     r @ [Route (Path path) ms (InstrumentHandler label (HandlerFunc fn))]"

text \<open>Lines 159 to 178: the router and its eleven routes.\<close>

definition routes :: "FS \<Rightarrow> route list" where
  "routes staticHTML =
     (let r = [];
          r = handleInstrumented r ''/'' ''home'' homeHandler [''GET'', ''HEAD''];
          r = handleInstrumented r ''/product/{id}'' ''product'' productHandler [''GET'', ''HEAD''];
          r = handleInstrumented r ''/cart'' ''cart_view'' viewCartHandler [''GET'', ''HEAD''];
          r = handleInstrumented r ''/cart'' ''cart_add'' addToCartHandler [''POST''];
          r = handleInstrumented r ''/cart/empty'' ''cart_empty'' emptyCartHandler [''POST''];
          r = handleInstrumented r ''/setCurrency'' ''setcurrency'' setCurrencyHandler [''POST''];
          r = handleInstrumented r ''/logout'' ''logout'' logoutHandler [''GET''];
          r = handleInstrumented r ''/cart/checkout'' ''cart_checkout'' placeOrderHandler [''POST''];
          r = r @ [Route (PathPrefix ''/static/'') []
                     (InstrumentHandler ''static''
                        (StripPrefix ''/static/'' (FileServer (ioFS staticHTML))))];
          r = handleInstrumented r ''/robots.txt'' ''robots''
                (Fprint (''User-agent: *'' @ [CHR 0x0A] @ ''Disallow: /'')) [];
          r = r @ [Route (Path ''/healthz'') [] (HandlerFunc (Fprint ''ok''))]
      in r)"

text \<open>Lines 181 to 186 (the variable \<^verbatim>\<open>handler\<close> is \<open>h\<close> here).\<close>

definition wrapHandler :: "Instance \<Rightarrow> handler \<Rightarrow> handler" where
  "wrapHandler rt r =
     (let h = r;
          h = ensureSessionID h;
          h = newLogHandler rt h;
          h = otelNewHandler h ''http''
      in h)"

text \<open>
  Lines 85 to 190. Each \<^verbatim>\<open>return nil, err\<close> is a result \<^verbatim>\<open>Inl err\<close>, which holds no
  server; \<^verbatim>\<open>return s, nil\<close> is \<^verbatim>\<open>Inr s\<close>. The local variables carry shortened
  names, since the fields of the server have theirs: \<open>rt\<close> is \<^verbatim>\<open>root\<close>, \<open>plat\<close> is
  \<^verbatim>\<open>platform\<close>, \<open>host\<close> is \<^verbatim>\<open>hostname\<close>, \<open>catalog\<close> is \<^verbatim>\<open>catalogService\<close>
  and so on.
\<close>

definition NewServer :: "Instance \<Rightarrow> world \<Rightarrow> event list \<Rightarrow> (error + Server) \<times> event list" where
  "NewServer rt w tr0 =
     (case weaverGet rt Catalog tr0 of
        (Inl err, tr1) \<Rightarrow> (Inl err, tr1)
      | (Inr catalog, tr1) \<Rightarrow>
     (case weaverGet rt Currency tr1 of
        (Inl err, tr2) \<Rightarrow> (Inl err, tr2)
      | (Inr currency, tr2) \<Rightarrow>
     (case weaverGet rt Cart tr2 of
        (Inl err, tr3) \<Rightarrow> (Inl err, tr3)
      | (Inr cart, tr3) \<Rightarrow>
     (case weaverGet rt Recommendation tr3 of
        (Inl err, tr4) \<Rightarrow> (Inl err, tr4)
      | (Inr recommendation, tr4) \<Rightarrow>
     (case weaverGet rt Checkout tr4 of
        (Inl err, tr5) \<Rightarrow> (Inl err, tr5)
      | (Inr checkout, tr5) \<Rightarrow>
     (case weaverGet rt Shipping tr5 of
        (Inl err, tr6) \<Rightarrow> (Inl err, tr6)
      | (Inr shipping, tr6) \<Rightarrow>
     (case weaverGet rt Ad tr6 of
        (Inl err, tr7) \<Rightarrow> (Inl err, tr7)
      | (Inr ad, tr7) \<Rightarrow>
     (case detectEnv w tr7 of (env, tr8) \<Rightarrow>
      let plat = setPlatformDetails \<lparr>css = [], provider = []\<rparr> (ToLower env) in
     (case getHostname w tr8 of (host, tr9) \<Rightarrow>
      let s = \<lparr>handler = None, root = rt, platform = plat, hostname = host,
               catalogService = catalog, currencyService = currency,
               cartService = cart, recommendationService = recommendation,
               checkoutService = checkout, shippingService = shipping,
               adService = ad\<rparr> in
     (case Sub (embedFS (staticFS w)) ''static'' of
        Inl err \<Rightarrow> (Inl err, tr9)
      | Inr staticHTML \<Rightarrow>
          let r = Router (routes staticHTML);
              h = wrapHandler rt r
          in (Inr (s\<lparr>handler := Some h\<rparr>), tr9)))))))))))"

text \<open>The order in which lines 87 to 111 ask for the components.\<close>

definition resolutionOrder :: "service list" where
  "resolutionOrder = [Catalog, Currency, Cart, Recommendation, Checkout, Shipping, Ad]"

subsection \<open>Sample inputs\<close>

text \<open>A registry in which every component resolves, and one in which cart and shipping do not.\<close>

fun allComponents :: "service \<Rightarrow> error + handle" where
  "allComponents Catalog = Inr (Handle 1)"
| "allComponents Currency = Inr (Handle 2)"
| "allComponents Cart = Inr (Handle 3)"
| "allComponents Recommendation = Inr (Handle 4)"
| "allComponents Checkout = Inr (Handle 5)"
| "allComponents Shipping = Inr (Handle 6)"
| "allComponents Ad = Inr (Handle 7)"

fun brokenComponents :: "service \<Rightarrow> error + handle" where
  "brokenComponents Cart = Inl (Error ''cart: component not found'')"
| "brokenComponents Shipping = Inl (Error ''shipping: component not found'')"
| "brokenComponents svc = allComponents svc"

definition goodRoot :: Instance where
  "goodRoot = \<lparr>components = allComponents\<rparr>"

definition brokenRoot :: Instance where
  "brokenRoot = \<lparr>components = brokenComponents\<rparr>"

text \<open>A resolver that knows no metadata host, and one that answers with no address.\<close>

definition noSuchHost :: "string \<Rightarrow> error + string list" where
  "noSuchHost host = Inl (Error ''no such host'')"

definition emptyAnswer :: "string \<Rightarrow> error + string list" where
  "emptyAnswer host = Inr []"

definition sampleAssets :: "(string \<times> string) list" where
  "sampleAssets =
     [(''static/a.txt'', ''hello''),
      (''static/index.html'', ''<html></html>''),
      (''static/styles/cart.css'', ''body {}'')]"

text \<open>
  A machine outside the cloud with \<^verbatim>\<open>ENV_PLATFORM\<close> set to the given value, and one
  with the variable unset; a machine whose resolver answers the probe; a machine that
  cannot tell its hostname.
\<close>

definition machine :: "string \<Rightarrow> world" where
  "machine v =
     \<lparr>environ = [''ENV_PLATFORM'' \<mapsto> v], resolver = noSuchHost,
      kernelHostname = Inr ''frontend-0'', staticFS = sampleAssets\<rparr>"

definition bareMachine :: world where
  "bareMachine =
     \<lparr>environ = Map.empty, resolver = noSuchHost,
      kernelHostname = Inr ''frontend-0'', staticFS = sampleAssets\<rparr>"

definition probedMachine :: "string \<Rightarrow> world" where
  "probedMachine v = (machine v)\<lparr>resolver := emptyAnswer\<rparr>"

definition namelessMachine :: world where
  "namelessMachine = bareMachine\<lparr>kernelHostname := Inl (Error ''hostname: not available'')\<rparr>"

section \<open>Properties\<close>

subsection \<open>Evaluation lemmas\<close>

lemma ToLower_local: "ToLower ''local'' = ''local''"
  by (simp add: ToLower_def toLowerByte_def)

lemma ToLower_gcp: "ToLower ''gcp'' = ''gcp''"
  by (simp add: ToLower_def toLowerByte_def)

lemma ValidPath_static: "ValidPath ''static''"
  by (simp add: ValidPath_def ValidString_def validElem_def)

text \<open>The mount of line 155 cannot fail: its directory is the constant \<^verbatim>\<open>static\<close>.\<close>

lemma Sub_static: "Sub (embedFS files) ''static'' = Inr (subFS (embedFS files) ''static'')"
  by (simp add: Sub_def ValidPath_static)

subsection \<open>The outcomes of the constructor\<close>

text \<open>When every component resolves, the constructor returns this server and this trace.\<close>

lemma NewServer_resolved:
  assumes "\<And>svc. components rt svc = Inr (hs svc)"
  shows "NewServer rt w tr =
    (Inr \<lparr>handler = Some (wrapHandler rt (Router (routes (subFS (embedFS (staticFS w)) ''static'')))),
          root = rt,
          platform = setPlatformDetails \<lparr>css = [], provider = []\<rparr>
                       (ToLower (fst (detectEnv w (tr @ map Get resolutionOrder)))),
          hostname = fst (getHostname w (snd (detectEnv w (tr @ map Get resolutionOrder)))),
          catalogService = hs Catalog, currencyService = hs Currency, cartService = hs Cart,
          recommendationService = hs Recommendation, checkoutService = hs Checkout,
          shippingService = hs Shipping, adService = hs Ad\<rparr>,
     snd (getHostname w (snd (detectEnv w (tr @ map Get resolutionOrder)))))"
  by (simp add: NewServer_def weaverGet_def assms Sub_static resolutionOrder_def Let_def
      split: prod.splits)

text \<open>Every error that the constructor returns is the error of a resolution.\<close>

lemma NewServer_error:
  assumes "fst (NewServer rt w tr) = Inl err"
  shows "\<exists>svc. components rt svc = Inl err"
  using assms
  by (auto simp: NewServer_def weaverGet_def Sub_static Let_def split: prod.splits sum.splits)

lemma NewServer_failed:
  assumes "components rt svc = Inl e"
  shows "\<exists>err. fst (NewServer rt w tr) = Inl err"
  using assms
  by (cases svc)
     (auto simp: NewServer_def weaverGet_def Sub_static Let_def split: prod.splits sum.splits)

lemma NewServer_Inr:
  assumes "fst (NewServer rt w tr) = Inr s"
  shows "\<exists>hs. \<forall>svc. components rt svc = Inr (hs svc)"
proof -
  have "\<exists>h. components rt svc = Inr h" for svc
  proof (cases "components rt svc")
    case (Inl e)
    from NewServer_failed [OF this, of w tr] assms show ?thesis by simp
  next
    case (Inr h)
    then show ?thesis by blast
  qed
  then show ?thesis by metis
qed

lemma below_Suc: "(\<forall>j<Suc k. P j) = (P k \<and> (\<forall>j<k. P j))"
  by (auto simp: less_Suc_eq)

lemma goodRoot_resolves: "components goodRoot svc = Inr (projr (allComponents svc))"
  by (cases svc) (simp_all add: goodRoot_def)

lemma resolved_ex:
  assumes "\<forall>svc. \<exists>h. components rt svc = Inr h"
  shows "\<exists>hs. \<forall>svc. components rt svc = Inr (hs svc)"
  using assms by metis

lemma goodRoot_server: "\<exists>s. fst (NewServer goodRoot w tr) = Inr s"
  by (simp add: NewServer_resolved [OF goodRoot_resolves])

text \<open>Without an answer from the metadata host, detection reports the label of the first step.\<close>

lemma detectEnv_no_probe:
  assumes "resolver w ''metadata.google.internal.'' = Inl e"
  shows "detectEnv w tr =
    (fst (envPlatform w tr),
     snd (envPlatform w tr) @ [Debug ''ENV_PLATFORM'' [(''platform'', [fst (envPlatform w tr)])]])"
  using assms by (simp add: detectEnv_def autodetectGCP_def split: prod.splits)

lemma routes_eval:
  "routes fsys =
    [Route (Path ''/'') [''GET'', ''HEAD''] (InstrumentHandler ''home'' (HandlerFunc homeHandler)),
     Route (Path ''/product/{id}'') [''GET'', ''HEAD'']
       (InstrumentHandler ''product'' (HandlerFunc productHandler)),
     Route (Path ''/cart'') [''GET'', ''HEAD'']
       (InstrumentHandler ''cart_view'' (HandlerFunc viewCartHandler)),
     Route (Path ''/cart'') [''POST''] (InstrumentHandler ''cart_add'' (HandlerFunc addToCartHandler)),
     Route (Path ''/cart/empty'') [''POST'']
       (InstrumentHandler ''cart_empty'' (HandlerFunc emptyCartHandler)),
     Route (Path ''/setCurrency'') [''POST'']
       (InstrumentHandler ''setcurrency'' (HandlerFunc setCurrencyHandler)),
     Route (Path ''/logout'') [''GET''] (InstrumentHandler ''logout'' (HandlerFunc logoutHandler)),
     Route (Path ''/cart/checkout'') [''POST'']
       (InstrumentHandler ''cart_checkout'' (HandlerFunc placeOrderHandler)),
     Route (PathPrefix ''/static/'') []
       (InstrumentHandler ''static'' (StripPrefix ''/static/'' (FileServer (ioFS fsys)))),
     Route (Path ''/robots.txt'') []
       (InstrumentHandler ''robots''
          (HandlerFunc (Fprint (''User-agent: *'' @ [CHR 0x0A] @ ''Disallow: /'')))),
     Route (Path ''/healthz'') [] (HandlerFunc (Fprint ''ok''))]"
  by (simp add: routes_def handleInstrumented_def)

lemma NewServer_handler:
  assumes "fst (NewServer rt w tr) = Inr s"
  shows "handler s =
    Some (otelNewHandler
            (newLogHandler rt
               (ensureSessionID (Router (routes (subFS (embedFS (staticFS w)) ''static'')))))
            ''http'')"
proof -
  from NewServer_Inr [OF assms] obtain hs where hs: "\<And>svc. components rt svc = Inr (hs svc)"
    by blast
  from assms show ?thesis
    by (auto simp: NewServer_resolved [OF hs] wrapHandler_def)
qed

subsection \<open>Paths without empty elements, dots and double dots\<close>

lemma splitSlash_nonempty: "splitSlash s \<noteq> []"
  by (induction s) (auto split: list.splits)

lemma joinSlash_Cons: "es \<noteq> [] \<Longrightarrow> joinSlash (e # es) = e @ ''/'' @ joinSlash es"
  by (cases es) simp_all

lemma joinSlash_push: "joinSlash ((c # e) # es) = c # joinSlash (e # es)"
  by (cases es) simp_all

lemma join_split: "joinSlash (splitSlash s) = s"
proof (induction s)
  case Nil
  show ?case by simp
next
  case (Cons c cs)
  show ?case
  proof (cases "c = CHR ''/''")
    case True
    then show ?thesis
      using Cons.IH by (simp add: joinSlash_Cons splitSlash_nonempty)
  next
    case False
    obtain e es where sp: "splitSlash cs = e # es"
      using splitSlash_nonempty [of cs] by (cases "splitSlash cs") auto
    with False Cons.IH show ?thesis
      by (simp add: joinSlash_push)
  qed
qed

lemma splitSlash_append_slash: "splitSlash (s @ ''/'') = splitSlash s @ [[]]"
proof (induction s)
  case Nil
  show ?case by simp
next
  case (Cons c cs)
  obtain e es where sp: "splitSlash cs = e # es"
    using splitSlash_nonempty [of cs] by (cases "splitSlash cs") auto
  with Cons.IH show ?case by simp
qed

lemma valid_no_trailing_slash:
  assumes "list_all validElem (splitSlash n)"
  shows "n \<noteq> [] \<and> last n \<noteq> CHR ''/''"
proof -
  from assms have ne: "n \<noteq> []"
    by (auto simp: validElem_def)
  have "last n \<noteq> CHR ''/''"
  proof
    assume "last n = CHR ''/''"
    with ne have "n = butlast n @ ''/''"
      by (metis append_butlast_last_id)
    then have "splitSlash n = splitSlash (butlast n) @ [[]]"
      by (metis splitSlash_append_slash)
    with assms show False
      by (simp add: validElem_def)
  qed
  with ne show ?thesis by simp
qed

lemma valid_no_leading_slash:
  assumes "list_all validElem (splitSlash n)"
  shows "\<exists>c cs. n = c # cs \<and> c \<noteq> CHR ''/''"
proof (cases n)
  case Nil
  with assms show ?thesis by (simp add: validElem_def)
next
  case (Cons c cs)
  with assms show ?thesis by (auto simp: validElem_def)
qed

lemma cleanElems_valid:
  "list_all validElem es \<Longrightarrow> cleanElems rooted out es = rev out @ es"
  by (induction es arbitrary: out) (auto simp: validElem_def)

lemma Clean_rooted:
  assumes "list_all validElem (splitSlash n)"
  shows "Clean (CHR ''/'' # n) = CHR ''/'' # n"
  using assms by (simp add: Clean_def cleanElems_valid join_split)

lemma Clean_relative:
  assumes "list_all validElem (splitSlash p)"
  shows "Clean p = p"
proof -
  from valid_no_leading_slash [OF assms] obtain c cs where p: "p = c # cs" "c \<noteq> CHR ''/''"
    by blast
  from assms have "cleanElems False [] (splitSlash p) = splitSlash p"
    by (simp add: cleanElems_valid)
  with p show ?thesis
    by (simp add: Clean_def join_split Let_def del: splitSlash.simps)
qed

lemma Open_valid: "Open fsys n = Inr f \<Longrightarrow> ValidPath n"
  by (cases fsys) (auto split: if_splits)

text \<open>The file server, asked for the name of a regular file.\<close>

lemma fileHandler_regular:
  assumes "Open fsys n = Inr (RegularFile data)"
    and "\<not> HasSuffix (''/'' @ n) ''/index.html''"
  shows "fileHandler (ioFS fsys) n = OK data"
proof -
  from Open_valid [OF assms(1)] have "n = ''.'' \<or> list_all validElem (splitSlash n)"
    by (simp add: ValidPath_def)
  then show ?thesis
  proof
    assume dot: "n = ''.''"
    have "Clean ''/.'' = ''/''"
      by (simp add: Clean_def)
    with assms dot show ?thesis
      by (simp add: fileHandler_def HasPrefix_def serveFile_def TrimPrefix_def)
  next
    assume v: "list_all validElem (splitSlash n)"
    from valid_no_leading_slash [OF v] obtain c cs where n: "n = c # cs" "c \<noteq> CHR ''/''"
      by blast
    from valid_no_trailing_slash [OF v] have l: "last n \<noteq> CHR ''/''"
      by simp
    from n have p: "\<not> HasPrefix n ''/''"
      by (simp add: HasPrefix_def)
    have t: "TrimPrefix (CHR ''/'' # n) ''/'' = n"
      by (simp add: TrimPrefix_def HasPrefix_def)
    from n have ne: "CHR ''/'' # n \<noteq> ''/''"
      by simp
    from n l have l': "last (CHR ''/'' # n) \<noteq> CHR ''/''"
      by simp
    from assms p l' ne show ?thesis
      by (simp add: fileHandler_def serveFile_def Clean_rooted [OF v] t del: last.simps)
  qed
qed

subsection \<open>The platform profile\<close>

text \<open>
  C5. \<^verbatim>\<open>setPlatformDetails\<close> is a total function of the label alone: for \<^verbatim>\<open>gcp\<close> it
  leaves the profile \<^verbatim>\<open>{gcp-platform, Google Cloud}\<close>, for every other label, the empty
  one included, the profile \<^verbatim>\<open>{local, local}\<close>, and what the receiver held before does
  not matter, so that two applications to the same label give equal structs.
\<close>

theorem setPlatformDetails_pure:
  "setPlatformDetails plat ''gcp'' = \<lparr>css = ''gcp-platform'', provider = ''Google Cloud''\<rparr>
   \<and> (env \<noteq> ''gcp'' \<longrightarrow>
        setPlatformDetails plat env = \<lparr>css = ''local'', provider = ''local''\<rparr>)
   \<and> setPlatformDetails plat env = setPlatformDetails plat' env"
  by (cases plat; cases plat') (simp add: setPlatformDetails_def)

theorem setPlatformDetails_pure_witness:
  "[] \<noteq> ''gcp''
   \<and> setPlatformDetails \<lparr>css = ''old'', provider = ''stale''\<rparr> [] =
       \<lparr>css = ''local'', provider = ''local''\<rparr>
   \<and> setPlatformDetails \<lparr>css = ''old'', provider = ''stale''\<rparr> [] =
       setPlatformDetails \<lparr>css = [], provider = []\<rparr> []"
  using setPlatformDetails_pure
    [of "\<lparr>css = ''old'', provider = ''stale''\<rparr>" "[]" "\<lparr>css = [], provider = []\<rparr>"]
  by (simp add: setPlatformDetails_def)

subsection \<open>Environment detection\<close>

text \<open>
  C1. If the lookup of \<^verbatim>\<open>metadata.google.internal.\<close> returns without error, whatever
  the number of addresses, zero included, the label is \<^verbatim>\<open>gcp\<close>, whatever
  \<^verbatim>\<open>ENV_PLATFORM\<close> gave in the first step, and the server that the constructor returns
  carries the profile of \<^verbatim>\<open>gcp\<close>. If the lookup returns an error, the label of the first
  step is kept.
\<close>

theorem probe_decides_label:
  "(resolver w ''metadata.google.internal.'' = Inr addrs \<longrightarrow> fst (detectEnv w tr) = ''gcp'')
   \<and> (resolver w ''metadata.google.internal.'' = Inl err \<longrightarrow>
        fst (detectEnv w tr) = fst (envPlatform w tr))
   \<and> (resolver w ''metadata.google.internal.'' = Inr addrs \<and> fst (NewServer rt w tr) = Inr s \<longrightarrow>
        platform s = \<lparr>css = ''gcp-platform'', provider = ''Google Cloud''\<rparr>)"
proof (intro conjI impI)
  assume "resolver w ''metadata.google.internal.'' = Inr addrs"
  then show "fst (detectEnv w tr) = ''gcp''"
    by (simp add: detectEnv_def autodetectGCP_def split: prod.splits)
next
  assume "resolver w ''metadata.google.internal.'' = Inl err"
  then show "fst (detectEnv w tr) = fst (envPlatform w tr)"
    by (simp add: detectEnv_def autodetectGCP_def split: prod.splits)
next
  assume a: "resolver w ''metadata.google.internal.'' = Inr addrs \<and> fst (NewServer rt w tr) = Inr s"
  then obtain hs where hs: "\<And>svc. components rt svc = Inr (hs svc)"
    using NewServer_Inr by blast
  have "fst (detectEnv w tr') = ''gcp''" for tr'
    using a by (simp add: detectEnv_def autodetectGCP_def split: prod.splits)
  with a show "platform s = \<lparr>css = ''gcp-platform'', provider = ''Google Cloud''\<rparr>"
    by (auto simp: NewServer_resolved [OF hs] ToLower_gcp setPlatformDetails_def)
qed

theorem probe_decides_label_witness:
  "Getenv (probedMachine ''local'') ''ENV_PLATFORM'' = ''local''
   \<and> resolver (probedMachine ''local'') ''metadata.google.internal.'' = Inr []
   \<and> fst (envPlatform (probedMachine ''local'') []) = ''local''
   \<and> fst (detectEnv (probedMachine ''local'') []) = ''gcp''
   \<and> (\<exists>s. fst (NewServer goodRoot (probedMachine ''local'') []) = Inr s
         \<and> platform s = \<lparr>css = ''gcp-platform'', provider = ''Google Cloud''\<rparr>)
   \<and> resolver (machine ''local'') ''metadata.google.internal.'' = Inl (Error ''no such host'')
   \<and> fst (detectEnv (machine ''local'') []) = ''local''"
proof -
  let ?w = "probedMachine ''local''"
  have r: "resolver ?w ''metadata.google.internal.'' = Inr []"
    by (simp add: probedMachine_def machine_def emptyAnswer_def)
  obtain s where s: "fst (NewServer goodRoot ?w []) = Inr s"
    by (simp add: NewServer_resolved [OF goodRoot_resolves])
  have r': "resolver (machine ''local'') ''metadata.google.internal.'' = Inl (Error ''no such host'')"
    by (simp add: machine_def noSuchHost_def)
  have e: "fst (envPlatform ?w []) = ''local''" "fst (envPlatform (machine ''local'') []) = ''local''"
    "Getenv ?w ''ENV_PLATFORM'' = ''local''"
    by (simp_all add: envPlatform_def Getenv_def probedMachine_def machine_def
        stringinSlice_def validEnvs_def)
  from probe_decides_label [of ?w "[]" "[]" "Error ''no such host''" goodRoot s]
    probe_decides_label [of "machine ''local''" "[]" "[]" "Error ''no such host''" goodRoot s]
    r r' s e
  show ?thesis by auto
qed

text \<open>
  C4. When \<^verbatim>\<open>ENV_PLATFORM\<close> is empty (or unset) or is not one of \<^verbatim>\<open>local\<close> and
  \<^verbatim>\<open>gcp\<close>, and the probe fails, the label is \<^verbatim>\<open>local\<close> and the profile is
  \<^verbatim>\<open>{local, local}\<close>. The fallback prints its notice and does nothing else: besides
  the notice the detection only logs the label, the constructor returns a server with
  that profile whenever the seven services resolve, and any error it returns is the
  error of a resolution.
\<close>

theorem invalid_env_falls_back:
  assumes "Getenv w ''ENV_PLATFORM'' = [] \<or> Getenv w ''ENV_PLATFORM'' \<notin> {''local'', ''gcp''}"
    and "resolver w ''metadata.google.internal.'' = Inl e"
  shows "detectEnv w tr =
      (''local'',
       tr @ [Println ''env platform is either empty or invalid'',
             Debug ''ENV_PLATFORM'' [(''platform'', [''local''])]])
    \<and> setPlatformDetails \<lparr>css = [], provider = []\<rparr> (ToLower (fst (detectEnv w tr))) =
        \<lparr>css = ''local'', provider = ''local''\<rparr>
    \<and> ((\<forall>svc. \<exists>h. components rt svc = Inr h) \<longrightarrow>
         (\<exists>s. fst (NewServer rt w tr) = Inr s
            \<and> platform s = \<lparr>css = ''local'', provider = ''local''\<rparr>))
    \<and> (fst (NewServer rt w tr) = Inl err \<longrightarrow> (\<exists>svc. components rt svc = Inl err))"
proof -
  have step1: "envPlatform w tr' =
      (''local'', tr' @ [Println ''env platform is either empty or invalid''])" for tr'
    using assms(1) by (auto simp: envPlatform_def stringinSlice_def validEnvs_def Let_def)
  have det: "detectEnv w tr' =
      (''local'',
       tr' @ [Println ''env platform is either empty or invalid'',
              Debug ''ENV_PLATFORM'' [(''platform'', [''local''])]])" for tr'
    by (simp add: detectEnv_no_probe [OF assms(2)] step1)
  have prof: "setPlatformDetails \<lparr>css = [], provider = []\<rparr> (ToLower ''local'') =
      \<lparr>css = ''local'', provider = ''local''\<rparr>"
    by (simp add: ToLower_local setPlatformDetails_def)
  have srv: "\<exists>s. fst (NewServer rt w tr) = Inr s
      \<and> platform s = \<lparr>css = ''local'', provider = ''local''\<rparr>"
    if "\<forall>svc. \<exists>h. components rt svc = Inr h"
  proof -
    from resolved_ex [OF that] obtain hs where hs: "\<And>svc. components rt svc = Inr (hs svc)"
      by blast
    show ?thesis
      by (simp add: NewServer_resolved [OF hs] det prof)
  qed
  from det prof srv NewServer_error show ?thesis
    by simp
qed

text \<open>A value outside the recognized set, and the variable unset.\<close>

theorem invalid_env_falls_back_witness:
  "Getenv (machine ''azure'') ''ENV_PLATFORM'' = ''azure''
   \<and> ''azure'' \<notin> {''local'', ''gcp''}
   \<and> resolver (machine ''azure'') ''metadata.google.internal.'' = Inl (Error ''no such host'')
   \<and> detectEnv (machine ''azure'') [] =
       (''local'',
        [Println ''env platform is either empty or invalid'',
         Debug ''ENV_PLATFORM'' [(''platform'', [''local''])]])
   \<and> (\<exists>s. fst (NewServer goodRoot (machine ''azure'') []) = Inr s
         \<and> platform s = \<lparr>css = ''local'', provider = ''local''\<rparr>)
   \<and> Getenv bareMachine ''ENV_PLATFORM'' = []
   \<and> fst (detectEnv bareMachine []) = ''local''"
proof -
  have g: "Getenv (machine ''azure'') ''ENV_PLATFORM'' = ''azure''"
    "Getenv bareMachine ''ENV_PLATFORM'' = []"
    by (simp_all add: Getenv_def machine_def bareMachine_def)
  have r: "resolver (machine ''azure'') ''metadata.google.internal.'' = Inl (Error ''no such host'')"
    "resolver bareMachine ''metadata.google.internal.'' = Inl (Error ''no such host'')"
    by (simp_all add: machine_def bareMachine_def noSuchHost_def)
  have a: "Getenv (machine ''azure'') ''ENV_PLATFORM'' = []
      \<or> Getenv (machine ''azure'') ''ENV_PLATFORM'' \<notin> {''local'', ''gcp''}"
    by (simp add: g)
  have b: "Getenv bareMachine ''ENV_PLATFORM'' = []
      \<or> Getenv bareMachine ''ENV_PLATFORM'' \<notin> {''local'', ''gcp''}"
    by (simp add: g)
  have all: "\<forall>svc. \<exists>h. components goodRoot svc = Inr h"
    using goodRoot_resolves by blast
  from invalid_env_falls_back [OF a r(1), of "[]" goodRoot "Error []"]
    invalid_env_falls_back [OF b r(2), of "[]" goodRoot "Error []"] g r all
  show ?thesis by simp
qed


text \<open>
  The label that leaves lines 119 to 131 is \<^verbatim>\<open>local\<close> or \<^verbatim>\<open>gcp\<close>, whatever the
  environment and the resolver hold, so that \<^verbatim>\<open>strings.ToLower\<close> on line 133 never
  changes it: the call that would make the spelling of \<^verbatim>\<open>ENV_PLATFORM\<close> irrelevant
  comes after the guard that has already rejected every other spelling.
\<close>

lemma detectEnv_label: "fst (detectEnv w tr) = ''local'' \<or> fst (detectEnv w tr) = ''gcp''"
  by (auto simp: detectEnv_def envPlatform_def autodetectGCP_def stringinSlice_def validEnvs_def
      Let_def split: prod.splits sum.splits)

lemma ToLower_after_guard: "ToLower (fst (detectEnv w tr)) = fst (detectEnv w tr)"
  using detectEnv_label [of w tr] by (auto simp: ToLower_local ToLower_gcp)


subsection \<open>The hostname\<close>

text \<open>
  C9. When the hostname lookup fails, the server's hostname is \<^verbatim>\<open>unknown\<close>, the
  constructor still returns a server whenever the seven services resolve, and it returns
  an error exactly when it would have returned that error with a hostname at hand.
\<close>

theorem hostname_fallback:
  assumes "kernelHostname w = Inl e"
  shows "(fst (NewServer rt w tr) = Inr s \<longrightarrow> hostname s = ''unknown'')
    \<and> ((\<forall>svc. \<exists>h. components rt svc = Inr h) \<longrightarrow> (\<exists>s'. fst (NewServer rt w tr) = Inr s'))
    \<and> (fst (NewServer rt w tr) = Inl err \<longleftrightarrow>
         fst (NewServer rt (w\<lparr>kernelHostname := Inr name\<rparr>) tr) = Inl err)"
proof (intro conjI impI)
  assume a: "fst (NewServer rt w tr) = Inr s"
  from NewServer_Inr [OF a] obtain hs where hs: "\<And>svc. components rt svc = Inr (hs svc)"
    by blast
  from a assms show "hostname s = ''unknown''"
    by (auto simp: NewServer_resolved [OF hs] getHostname_def)
next
  assume "\<forall>svc. \<exists>h. components rt svc = Inr h"
  from resolved_ex [OF this] obtain hs where hs: "\<And>svc. components rt svc = Inr (hs svc)"
    by blast
  show "\<exists>s'. fst (NewServer rt w tr) = Inr s'"
    by (simp add: NewServer_resolved [OF hs])
next
  show "fst (NewServer rt w tr) = Inl err \<longleftrightarrow>
      fst (NewServer rt (w\<lparr>kernelHostname := Inr name\<rparr>) tr) = Inl err"
    by (auto simp: NewServer_def weaverGet_def Sub_static Let_def split: prod.splits sum.splits)
qed

theorem hostname_fallback_witness:
  "kernelHostname namelessMachine = Inl (Error ''hostname: not available'')
   \<and> (\<exists>s. fst (NewServer goodRoot namelessMachine []) = Inr s \<and> hostname s = ''unknown'')"
proof -
  have k: "kernelHostname namelessMachine = Inl (Error ''hostname: not available'')"
    by (simp add: namelessMachine_def)
  from goodRoot_server obtain s where s: "fst (NewServer goodRoot namelessMachine []) = Inr s"
    by blast
  from hostname_fallback [OF k, of goodRoot "[]" s "Error []" "[]"] k s
  show ?thesis by simp
qed

subsection \<open>Wiring of the seven services\<close>

text \<open>
  C2. The wiring is all or nothing. If the resolution of any one of the seven services
  fails, the constructor returns an error and with it no server; and a server that it
  does return holds, in each of its seven fields, the handle that the resolution of that
  service gave.
\<close>

theorem wiring_all_or_nothing:
  "(components rt svc = Inl e \<longrightarrow> (\<exists>err. fst (NewServer rt w tr) = Inl err))
   \<and> (fst (NewServer rt w tr) = Inr s \<longrightarrow>
        components rt Catalog = Inr (catalogService s)
      \<and> components rt Currency = Inr (currencyService s)
      \<and> components rt Cart = Inr (cartService s)
      \<and> components rt Recommendation = Inr (recommendationService s)
      \<and> components rt Checkout = Inr (checkoutService s)
      \<and> components rt Shipping = Inr (shippingService s)
      \<and> components rt Ad = Inr (adService s))"
proof (intro conjI impI)
  assume "components rt svc = Inl e"
  then show "\<exists>err. fst (NewServer rt w tr) = Inl err" by (rule NewServer_failed)
next
  assume a: "fst (NewServer rt w tr) = Inr s"
  then obtain hs where hs: "\<And>svc. components rt svc = Inr (hs svc)"
    using NewServer_Inr by blast
  from a show "components rt Catalog = Inr (catalogService s)"
    by (auto simp: NewServer_resolved [OF hs] hs)
  from a show "components rt Currency = Inr (currencyService s)"
    by (auto simp: NewServer_resolved [OF hs] hs)
  from a show "components rt Cart = Inr (cartService s)"
    by (auto simp: NewServer_resolved [OF hs] hs)
  from a show "components rt Recommendation = Inr (recommendationService s)"
    by (auto simp: NewServer_resolved [OF hs] hs)
  from a show "components rt Checkout = Inr (checkoutService s)"
    by (auto simp: NewServer_resolved [OF hs] hs)
  from a show "components rt Shipping = Inr (shippingService s)"
    by (auto simp: NewServer_resolved [OF hs] hs)
  from a show "components rt Ad = Inr (adService s)"
    by (auto simp: NewServer_resolved [OF hs] hs)
qed

theorem wiring_all_or_nothing_witness:
  "components brokenRoot Shipping = Inl (Error ''shipping: component not found'')
   \<and> (\<exists>err. fst (NewServer brokenRoot bareMachine []) = Inl err)
   \<and> (\<exists>s. fst (NewServer goodRoot bareMachine []) = Inr s
         \<and> catalogService s = Handle 1 \<and> currencyService s = Handle 2
         \<and> cartService s = Handle 3 \<and> recommendationService s = Handle 4
         \<and> checkoutService s = Handle 5 \<and> shippingService s = Handle 6
         \<and> adService s = Handle 7)"
proof -
  have b: "components brokenRoot Shipping = Inl (Error ''shipping: component not found'')"
    by (simp add: brokenRoot_def)
  obtain s where s: "fst (NewServer goodRoot bareMachine []) = Inr s"
    by (simp add: NewServer_resolved [OF goodRoot_resolves])
  from wiring_all_or_nothing
         [of brokenRoot Shipping "Error ''shipping: component not found''" bareMachine "[]" s]
    wiring_all_or_nothing [of goodRoot Shipping "Error []" bareMachine "[]" s] b s
  show ?thesis by (auto simp: goodRoot_def)
qed

text \<open>
  C10. The resolutions run in the order catalog, currency, cart, recommendation,
  checkout, shipping, ad and stop at the first failure: when a service fails and all
  before it in that order resolve, the constructor returns the error of that service, and
  the resolutions attempted are those up to it and no other.
\<close>

theorem resolution_short_circuit:
  assumes "k < length resolutionOrder"
    and "components rt (resolutionOrder ! k) = Inl e"
    and "\<forall>j<k. \<exists>h. components rt (resolutionOrder ! j) = Inr h"
  shows "NewServer rt w tr = (Inl e, tr @ map Get (take (Suc k) resolutionOrder))"
proof -
  from assms(1) have "k < 7"
    by (simp add: resolutionOrder_def)
  then have "k \<in> set [0, 1, 2, 3, 4, 5, 6]"
    by (simp add: less_Suc_eq numeral_eq_Suc)
  then show ?thesis
    using assms(2,3)
    by (auto simp: NewServer_def weaverGet_def resolutionOrder_def numeral_eq_Suc below_Suc)
qed

text \<open>
  In the sample registry both cart and shipping fail: the error returned is the cart's,
  and shipping is never asked for.
\<close>

theorem resolution_short_circuit_witness:
  "components brokenRoot (resolutionOrder ! 0) = Inr (Handle 1)
   \<and> components brokenRoot (resolutionOrder ! 1) = Inr (Handle 2)
   \<and> components brokenRoot (resolutionOrder ! 2) = Inl (Error ''cart: component not found'')
   \<and> components brokenRoot Shipping = Inl (Error ''shipping: component not found'')
   \<and> NewServer brokenRoot bareMachine [] =
       (Inl (Error ''cart: component not found''), [Get Catalog, Get Currency, Get Cart])"
proof -
  have i: "(2::nat) < length resolutionOrder"
    by (simp add: resolutionOrder_def)
  have c: "components brokenRoot (resolutionOrder ! 2) = Inl (Error ''cart: component not found'')"
    by (simp add: brokenRoot_def resolutionOrder_def)
  have b: "\<forall>j<2. \<exists>h. components brokenRoot (resolutionOrder ! j) = Inr h"
    by (auto simp: brokenRoot_def resolutionOrder_def less_Suc_eq numeral_2_eq_2)
  from resolution_short_circuit [OF i c b, of bareMachine "[]"]
  show ?thesis by (simp add: brokenRoot_def resolutionOrder_def)
qed

subsection \<open>The handler chain and the route table\<close>

text \<open>
  C6. The handler stored in the server is built from the router that the constructor
  has filled with its routes: that router is innermost, the session wrapper
  \<^verbatim>\<open>ensureSessionID\<close> is around it, the logging wrapper \<^verbatim>\<open>newLogHandler\<close> around
  that, and the tracing wrapper \<^verbatim>\<open>otelhttp.NewHandler\<close> is outermost. Lines 181 to 186
  nest any base handler in this order.
\<close>

theorem handler_nesting:
  assumes "fst (NewServer rt w tr) = Inr s"
  shows "handler s =
      Some (otelNewHandler
              (newLogHandler rt
                 (ensureSessionID (Router (routes (subFS (embedFS (staticFS w)) ''static'')))))
              ''http'')
    \<and> wrapHandler rt r = otelNewHandler (newLogHandler rt (ensureSessionID r)) ''http''"
proof
  show "handler s =
      Some (otelNewHandler
              (newLogHandler rt
                 (ensureSessionID (Router (routes (subFS (embedFS (staticFS w)) ''static'')))))
              ''http'')"
    by (rule NewServer_handler [OF assms])
  show "wrapHandler rt r = otelNewHandler (newLogHandler rt (ensureSessionID r)) ''http''"
    by (simp add: wrapHandler_def)
qed

text \<open>On the sample machine the innermost router holds the eleven routes, the last for \<^verbatim>\<open>/healthz\<close>.\<close>

theorem handler_nesting_witness:
  "\<exists>s. fst (NewServer goodRoot bareMachine []) = Inr s
     \<and> handler s =
         Some (otelNewHandler
                 (newLogHandler goodRoot
                    (ensureSessionID (Router (routes (subFS (embedFS sampleAssets) ''static'')))))
                 ''http'')
     \<and> length (routes (subFS (embedFS sampleAssets) ''static'')) = 11
     \<and> last (routes (subFS (embedFS sampleAssets) ''static'')) =
         Route (Path ''/healthz'') [] (HandlerFunc (Fprint ''ok''))"
proof -
  from goodRoot_server obtain s where s: "fst (NewServer goodRoot bareMachine []) = Inr s"
    by blast
  have w: "staticFS bareMachine = sampleAssets"
    by (simp add: bareMachine_def)
  have n: "length (routes (subFS (embedFS sampleAssets) ''static'')) = 11"
    "last (routes (subFS (embedFS sampleAssets) ''static'')) =
       Route (Path ''/healthz'') [] (HandlerFunc (Fprint ''ok''))"
    by (simp_all add: routes_eval)
  from handler_nesting [OF s, of "Router []"] s n show ?thesis
    by (auto simp: w)
qed

text \<open>
  C7. The router of the server has exactly one route for \<^verbatim>\<open>/healthz\<close>; its handler
  prints \<^verbatim>\<open>ok\<close> and is not wrapped by the instrumentation layer. The other routes are
  the ten listed with their templates, methods and labels; each is wrapped by the
  instrumentation layer, and no two routes share a label.
\<close>

theorem route_table:
  assumes "fst (NewServer rt w tr) = Inr s"
  shows "\<exists>rs. handler s =
        Some (otelNewHandler (newLogHandler rt (ensureSessionID (Router rs))) ''http'')
    \<and> filter (\<lambda>r. template r = Path ''/healthz'') rs =
        [Route (Path ''/healthz'') [] (HandlerFunc (Fprint ''ok''))]
    \<and> instrumentLabel (HandlerFunc (Fprint ''ok'')) = None
    \<and> ServeHTTP (HandlerFunc (Fprint ''ok'')) p = OK ''ok''
    \<and> map (\<lambda>r. (template r, methods r, instrumentLabel (routeHandler r)))
          (filter (\<lambda>r. template r \<noteq> Path ''/healthz'') rs) =
        [(Path ''/'', [''GET'', ''HEAD''], Some ''home''),
         (Path ''/product/{id}'', [''GET'', ''HEAD''], Some ''product''),
         (Path ''/cart'', [''GET'', ''HEAD''], Some ''cart_view''),
         (Path ''/cart'', [''POST''], Some ''cart_add''),
         (Path ''/cart/empty'', [''POST''], Some ''cart_empty''),
         (Path ''/setCurrency'', [''POST''], Some ''setcurrency''),
         (Path ''/logout'', [''GET''], Some ''logout''),
         (Path ''/cart/checkout'', [''POST''], Some ''cart_checkout''),
         (PathPrefix ''/static/'', [], Some ''static''),
         (Path ''/robots.txt'', [], Some ''robots'')]
    \<and> distinct (map (\<lambda>r. instrumentLabel (routeHandler r)) rs)"
proof -
  let ?rs = "routes (subFS (embedFS (staticFS w)) ''static'')"
  have "handler s = Some (otelNewHandler (newLogHandler rt (ensureSessionID (Router ?rs))) ''http'')"
    by (rule NewServer_handler [OF assms])
  moreover have "filter (\<lambda>r. template r = Path ''/healthz'') ?rs =
      [Route (Path ''/healthz'') [] (HandlerFunc (Fprint ''ok''))]"
    by (simp add: routes_eval)
  moreover have "map (\<lambda>r. (template r, methods r, instrumentLabel (routeHandler r)))
          (filter (\<lambda>r. template r \<noteq> Path ''/healthz'') ?rs) =
        [(Path ''/'', [''GET'', ''HEAD''], Some ''home''),
         (Path ''/product/{id}'', [''GET'', ''HEAD''], Some ''product''),
         (Path ''/cart'', [''GET'', ''HEAD''], Some ''cart_view''),
         (Path ''/cart'', [''POST''], Some ''cart_add''),
         (Path ''/cart/empty'', [''POST''], Some ''cart_empty''),
         (Path ''/setCurrency'', [''POST''], Some ''setcurrency''),
         (Path ''/logout'', [''GET''], Some ''logout''),
         (Path ''/cart/checkout'', [''POST''], Some ''cart_checkout''),
         (PathPrefix ''/static/'', [], Some ''static''),
         (Path ''/robots.txt'', [], Some ''robots'')]"
    by (simp add: routes_eval)
  moreover have "distinct (map (\<lambda>r. instrumentLabel (routeHandler r)) ?rs)"
    by (simp add: routes_eval)
  ultimately show ?thesis
    by (intro exI [of _ ?rs]) simp
qed

theorem route_table_witness:
  "\<exists>s. fst (NewServer goodRoot bareMachine []) = Inr s
     \<and> (\<exists>rs. handler s =
            Some (otelNewHandler (newLogHandler goodRoot (ensureSessionID (Router rs))) ''http'')
          \<and> filter (\<lambda>r. template r = Path ''/healthz'') rs =
              [Route (Path ''/healthz'') [] (HandlerFunc (Fprint ''ok''))]
          \<and> ServeHTTP (HandlerFunc (Fprint ''ok'')) ''/healthz'' = OK ''ok''
          \<and> length (filter (\<lambda>r. template r \<noteq> Path ''/healthz'') rs) = 10
          \<and> distinct (map (\<lambda>r. instrumentLabel (routeHandler r)) rs))"
proof -
  from goodRoot_server obtain s where s: "fst (NewServer goodRoot bareMachine []) = Inr s"
    by blast
  from route_table [OF s, of "''/healthz''"] obtain rs where
    rs: "handler s =
        Some (otelNewHandler (newLogHandler goodRoot (ensureSessionID (Router rs))) ''http'')"
      "filter (\<lambda>r. template r = Path ''/healthz'') rs =
        [Route (Path ''/healthz'') [] (HandlerFunc (Fprint ''ok''))]"
      "ServeHTTP (HandlerFunc (Fprint ''ok'')) ''/healthz'' = OK ''ok''"
      "length (map (\<lambda>r. (template r, methods r, instrumentLabel (routeHandler r)))
         (filter (\<lambda>r. template r \<noteq> Path ''/healthz'') rs)) = 10"
      "distinct (map (\<lambda>r. instrumentLabel (routeHandler r)) rs)"
    by auto
  from rs(4) have "length (filter (\<lambda>r. template r \<noteq> Path ''/healthz'') rs) = 10"
    by simp
  with s rs show ?thesis by blast
qed

subsection \<open>The static route\<close>

text \<open>
  C8, as the code has it. The router has one route for the prefix \<^verbatim>\<open>/static/\<close>,
  instrumented under the label \<^verbatim>\<open>static\<close>; its handler strips \<^verbatim>\<open>/static/\<close> and serves
  from the subtree \<^verbatim>\<open>static\<close> of the embedded collection. For every name \<open>n\<close> of a
  regular file of that subtree, other than \<^verbatim>\<open>index.html\<close> and the names that end in
  \<^verbatim>\<open>/index.html\<close>, the request for \<^verbatim>\<open>/static/\<close> followed by \<open>n\<close> is answered with
  the bytes of that file, which are the bytes stored under \<^verbatim>\<open>static/\<close> followed by
  \<open>n\<close> in the collection.
\<close>

theorem static_route_serves_asset:
  assumes "fst (NewServer rt w tr) = Inr s"
    and "Sub (embedFS (staticFS w)) ''static'' = Inr staticHTML"
    and "Open staticHTML n = Inr (RegularFile data)"
    and "\<not> HasSuffix (''/'' @ n) ''/index.html''"
  shows "\<exists>rs h. handler s =
             Some (otelNewHandler (newLogHandler rt (ensureSessionID (Router rs))) ''http'')
    \<and> filter (\<lambda>r. template r = PathPrefix ''/static/'') rs =
        [Route (PathPrefix ''/static/'') [] (InstrumentHandler ''static'' h)]
    \<and> h = StripPrefix ''/static/'' (FileServer (ioFS staticHTML))
    \<and> ServeHTTP h (''/static/'' @ n) = OK data
    \<and> ServeHTTP (InstrumentHandler ''static'' h) (''/static/'' @ n) = OK data
    \<and> (n \<noteq> ''.'' \<longrightarrow> map_of (staticFS w) (''static/'' @ n) = Some data)"
proof -
  from assms(2) have sub: "staticHTML = subFS (embedFS (staticFS w)) ''static''"
    by (simp add: Sub_static)
  let ?h = "StripPrefix ''/static/'' (FileServer (ioFS staticHTML))"
  have 1: "handler s =
      Some (otelNewHandler (newLogHandler rt (ensureSessionID (Router (routes staticHTML)))) ''http'')"
    by (simp add: NewServer_handler [OF assms(1)] sub)
  have 2: "filter (\<lambda>r. template r = PathPrefix ''/static/'') (routes staticHTML) =
      [Route (PathPrefix ''/static/'') [] (InstrumentHandler ''static'' ?h)]"
    by (simp add: routes_eval)
  have 3: "ServeHTTP ?h (''/static/'' @ n) = OK data"
    by (simp add: TrimPrefix_def HasPrefix_def fileHandler_regular [OF assms(3,4)])
  have 4: "map_of (staticFS w) (''static/'' @ n) = Some data" if "n \<noteq> ''.''"
  proof -
    from Open_valid [OF assms(3)] that have v: "list_all validElem (splitSlash n)"
      by (simp add: ValidPath_def)
    then have "list_all validElem (splitSlash (''static/'' @ n))"
      by (simp add: validElem_def)
    then have "Clean (''static/'' @ n) = ''static/'' @ n"
      by (rule Clean_relative)
    then have j: "Join ''static'' n = ''static/'' @ n"
      by (simp add: Join_def)
    from assms(3) show ?thesis
      by (auto simp: sub j split: if_splits option.splits)
  qed
  from 1 2 3 4 show ?thesis
    by (intro exI [of _ "routes staticHTML"] exI [of _ ?h]) simp
qed

theorem static_route_serves_asset_witness:
  "Sub (embedFS (staticFS bareMachine)) ''static'' = Inr (subFS (embedFS sampleAssets) ''static'')
   \<and> Open (subFS (embedFS sampleAssets) ''static'') ''a.txt'' = Inr (RegularFile ''hello'')
   \<and> \<not> HasSuffix ''/a.txt'' ''/index.html''
   \<and> (\<exists>s. fst (NewServer goodRoot bareMachine []) = Inr s
        \<and> (\<exists>rs h. handler s =
              Some (otelNewHandler (newLogHandler goodRoot (ensureSessionID (Router rs))) ''http'')
            \<and> filter (\<lambda>r. template r = PathPrefix ''/static/'') rs =
                [Route (PathPrefix ''/static/'') [] (InstrumentHandler ''static'' h)]
            \<and> ServeHTTP (InstrumentHandler ''static'' h) ''/static/a.txt'' = OK ''hello''))
   \<and> map_of sampleAssets ''static/a.txt'' = Some ''hello''"
proof -
  have sub: "Sub (embedFS (staticFS bareMachine)) ''static'' =
      Inr (subFS (embedFS sampleAssets) ''static'')"
    by (simp add: Sub_static bareMachine_def)
  have op: "Open (subFS (embedFS sampleAssets) ''static'') ''a.txt'' = Inr (RegularFile ''hello'')"
    by code_simp
  have ns: "\<not> HasSuffix (''/'' @ ''a.txt'') ''/index.html''"
    by (simp add: HasSuffix_def)
  from goodRoot_server obtain s where s: "fst (NewServer goodRoot bareMachine []) = Inr s"
    by blast
  have m: "map_of sampleAssets ''static/a.txt'' = Some ''hello''"
    by (simp add: sampleAssets_def)
  from static_route_serves_asset [OF s sub op ns] obtain rs h where
    "handler s =
       Some (otelNewHandler (newLogHandler goodRoot (ensureSessionID (Router rs))) ''http'')"
    "filter (\<lambda>r. template r = PathPrefix ''/static/'') rs =
       [Route (PathPrefix ''/static/'') [] (InstrumentHandler ''static'' h)]"
    "ServeHTTP (InstrumentHandler ''static'' h) (''/static/'' @ ''a.txt'') = OK ''hello''"
    by blast
  with s have "\<exists>s. fst (NewServer goodRoot bareMachine []) = Inr s
        \<and> (\<exists>rs h. handler s =
              Some (otelNewHandler (newLogHandler goodRoot (ensureSessionID (Router rs))) ''http'')
            \<and> filter (\<lambda>r. template r = PathPrefix ''/static/'') rs =
                [Route (PathPrefix ''/static/'') [] (InstrumentHandler ''static'' h)]
            \<and> ServeHTTP (InstrumentHandler ''static'' h) ''/static/a.txt'' = OK ''hello'')"
    by auto
  with sub op ns m show ?thesis by simp
qed

text \<open>
  C8, as the claim has it, fails for the asset \<^verbatim>\<open>index.html\<close>: the file server answers
  a request whose path ends in \<^verbatim>\<open>/index.html\<close> with a redirect, not with the file.
\<close>

theorem static_index_counterexample:
  "Open (subFS (embedFS sampleAssets) ''static'') ''index.html'' = Inr (RegularFile ''<html></html>'')
   \<and> ServeHTTP
        (StripPrefix ''/static/'' (FileServer (ioFS (subFS (embedFS sampleAssets) ''static''))))
        ''/static/index.html'' = MovedPermanently
   \<and> ServeHTTP
        (InstrumentHandler ''static''
           (StripPrefix ''/static/'' (FileServer (ioFS (subFS (embedFS sampleAssets) ''static'')))))
        ''/static/index.html'' = MovedPermanently
   \<and> ServeHTTP
        (InstrumentHandler ''static''
           (StripPrefix ''/static/'' (FileServer (ioFS (subFS (embedFS sampleAssets) ''static'')))))
        ''/static/index.html'' \<noteq> OK ''<html></html>''"
  by code_simp

end
